theory Spec2Isabelle
  imports Complex_Main "HOL-Library.AList" "HOL-Library.Multiset" "HOL-Library.Product_Lexorder"
    "HOL-Library.Log_Nat"
begin

section \<open>The spaced-repetition scheduler of \<^verbatim>\<open>spaced_repetition.py\<close>\<close>

text \<open>
  The class \<^verbatim>\<open>SRS\<close> keeps a dictionary \<^verbatim>\<open>self.db["problems"]\<close> from problem ids
  to entries and changes it in place. The embedding passes that dictionary explicitly:
  every method takes the dictionary (and the value of \<^verbatim>\<open>today()\<close>) and returns the new
  one. Saving (\<^verbatim>\<open>_persist\<close>) and printing have no effect on the dictionary and are left out.

  \<^item> A calendar date is its day number (\<^verbatim>\<open>date.toordinal()\<close>), so
    \<^verbatim>\<open>d + timedelta(days=n)\<close> is \<open>d + n\<close>. The entry stores \<^verbatim>\<open>iso(d)\<close> and the queries
    read it back with \<^verbatim>\<open>parse_iso\<close>; the two are inverse on dates, and the model stores
    the date itself. \<^verbatim>\<open>None\<close> is \<open>None\<close>.
  \<^item> Python's \<^verbatim>\<open>int\<close> is \<open>int\<close>.
  \<^item> An entry has all eight keys, as the entries written by \<^verbatim>\<open>_make_entry\<close> and
    \<^verbatim>\<open>_load_from_sheet\<close> have, so the defaults of \<^verbatim>\<open>e.get(key, default)\<close> are never taken;
    a \<^verbatim>\<open>next_review\<close> that is present is a date (not the empty string).
  \<^item> A dictionary keeps its keys in insertion order, and \<^verbatim>\<open>get_due\<close> sorts stably, so
    the order is observable: the dictionary is an association list, read with
    \<open>map_of\<close> and written with \<open>AList.update\<close> (which replaces the value of a present key
    where it stands and appends an absent key at the end, as a Python \<^verbatim>\<open>dict\<close> does).

  The scheduler is embedded twice.
  \<^item> The first embedding (\<open>make_entry\<close>, \<open>add_solved\<close>, \<open>record_review\<close>) takes the
    arithmetic as exact: a \<^verbatim>\<open>float\<close> is a rational, a decimal literal such as \<^verbatim>\<open>0.08\<close>
    is the rational \<open>8/100\<close>, and a date plus a number of days is always a date. It carries
    the properties that depend on neither the value of the ease factor nor the size of
    the interval: the lapse, the two errors of a review and their order, the queries and
    the invariant of \<open>next_review\<close>.
  \<^item> The second embedding (\<open>make_entry_fp\<close>, \<open>add_solved_fp\<close>, \<open>record_review_fp\<close>)
    computes as CPython does: a \<^verbatim>\<open>float\<close> is an IEEE 754 double (or an infinity or a NaN),
    every operation rounds to the nearest double, an \<^verbatim>\<open>int\<close> that is too large for a double
    raises \<^verbatim>\<open>OverflowError\<close>, and so does a date outside the range of \<^verbatim>\<open>datetime.date\<close>.
    It carries the properties of the ease factor and of the interval of a successful
    review.
\<close>

subsection \<open>Data\<close>

type_synonym date = int

text \<open>One entry of \<^verbatim>\<open>self.db["problems"]\<close> in the first embedding, with a rational ease
  factor. The key \<^verbatim>\<open>"id"\<close> is the field \<open>entry_id\<close> (\<open>id\<close> is the identity function of
  HOL).\<close>

record entry =
  entry_id :: string
  difficulty :: int
  ef :: rat
  reps :: int
  interval :: int
  last_review :: "date option"
  next_review :: "date option"
  "notes" :: string

type_synonym problems = "(string \<times> entry) list"

text \<open>The exceptions: the two that \<^verbatim>\<open>record_review\<close> raises itself (the specification's
  \<^verbatim>\<open>NotFoundError\<close> and \<^verbatim>\<open>InvalidArgumentError\<close>), and the \<^verbatim>\<open>OverflowError\<close> of the
  arithmetic; their messages are left out.\<close>

datatype py_error = KeyError | ValueError | OverflowError

subsection \<open>Rounding\<close>

text \<open>\<^verbatim>\<open>round(x)\<close>: the nearest integer, a tie going to the even neighbour.\<close>

definition py_round :: "rat \<Rightarrow> int" where
  "py_round x =
     (let f = \<lfloor>x\<rfloor>; r = x - of_int f
      in if r < 1/2 then f else if 1/2 < r then f + 1 else if even f then f else f + 1)"

text \<open>\<^verbatim>\<open>round(x, n)\<close>: the nearest multiple of \<open>10\<^sup>-\<^sup>n\<close>.\<close>

definition py_round_nd :: "rat \<Rightarrow> nat \<Rightarrow> rat" where
  "py_round_nd x n = of_int (py_round (x * 10 ^ n)) / 10 ^ n"

subsection \<open>Adding and reviewing\<close>

text \<open>\<^verbatim>\<open>SRS._make_entry\<close>.\<close>

definition make_entry :: "string \<Rightarrow> int \<Rightarrow> date \<Rightarrow> entry" where
  "make_entry pid diff today =
     \<lparr> entry_id = pid, difficulty = diff,
       ef = max 1.3 (2.5 - 0.05 * of_int (diff - 3)),
       reps = 0, interval = 3,
       last_review = None,
       next_review = Some (today + 3),
       notes = [] \<rparr>"

text \<open>\<^verbatim>\<open>SRS.add_solved\<close>. \<^verbatim>\<open>notes or e.get("notes", "")\<close> is \<^verbatim>\<open>notes\<close> unless it is the
  empty string.\<close>

definition add_solved :: "problems \<Rightarrow> string \<Rightarrow> int \<Rightarrow> string \<Rightarrow> date \<Rightarrow> problems" where
  "add_solved probs pid diff nts today =
     (case map_of probs pid of
        Some e \<Rightarrow>
          AList.update pid
            (e\<lparr> difficulty := diff,
                notes := (if nts \<noteq> [] then nts else notes e),
                ef := py_round_nd (max 1.3 (ef e - 0.02 * of_int (diff - 3))) 3,
                reps := 0,
                interval := 3,
                next_review := Some (today + 3) \<rparr>)
            probs
      | None \<Rightarrow>
          AList.update pid ((make_entry pid diff today)\<lparr> notes := nts \<rparr>) probs)"

text \<open>\<^verbatim>\<open>SRS.record_review\<close>. The result is the exception raised, if any, and the
  dictionary the call leaves behind.\<close>

definition record_review ::
  "problems \<Rightarrow> string \<Rightarrow> int \<Rightarrow> date \<Rightarrow> py_error option \<times> problems" where
  "record_review probs pid q today =
     (case map_of probs pid of
        None \<Rightarrow> (Some KeyError, probs)
      | Some e \<Rightarrow>
          if \<not> (0 \<le> q \<and> q \<le> 5) then (Some ValueError, probs)
          else
            let prev_i = interval e;
                (reps', interval') =
                  (if q < 3 then (0, 3)
                   else let r = reps e + 1
                        in (r, if r = 1 then 10 else max 1 (py_round (of_int prev_i * ef e))));
                ef_new = max 1.3 (ef e + (0.1 - of_int (5 - q) * (0.08 + of_int (5 - q) * 0.02)))
            in (None,
                AList.update pid
                  (e\<lparr> ef := py_round_nd ef_new 3,
                      reps := reps',
                      interval := interval',
                      last_review := Some today,
                      next_review := Some (today + interval') \<rparr>)
                  probs))"

subsection \<open>Queries\<close>

text \<open>\<^verbatim>\<open>SRS.get_due\<close>. The sort key is the pair \<^verbatim>\<open>(parse_iso(x["next_review"]) or today(),
  -x["difficulty"])\<close>, compared lexicographically as Python compares tuples;
  \<open>sort_key\<close> is stable, as \<^verbatim>\<open>list.sort\<close> is.\<close>

definition get_due :: "problems \<Rightarrow> date \<Rightarrow> entry list" where
  "get_due probs today =
     (let d = today;
          due = filter (\<lambda>p. case next_review p of None \<Rightarrow> True | Some n \<Rightarrow> n \<le> d)
                  (map snd probs)
      in sort_key (\<lambda>x. (case next_review x of None \<Rightarrow> today | Some n \<Rightarrow> n, - difficulty x)) due)"

text \<open>The dictionary \<^verbatim>\<open>counts\<close> of \<^verbatim>\<open>SRS.study_plan_summary\<close>: six counters that start
  at 0 and are only ever incremented.\<close>

record counts =
  overdue :: nat
  due_today :: nat
  due_tomorrow :: nat
  next_7_days :: nat
  next_30_days :: nat
  total :: nat

text \<open>The body of the loop of \<^verbatim>\<open>study_plan_summary\<close>, for one entry \<open>p\<close>.\<close>

definition plan_count :: "date \<Rightarrow> entry \<Rightarrow> counts \<Rightarrow> counts" where
  "plan_count today p c0 =
     (let d0 = today; d1 = today + 1; d7 = today + 7; d30 = today + 30;
          c = c0\<lparr> total := total c0 + 1 \<rparr>
      in case next_review p of
           None \<Rightarrow> c\<lparr> due_today := due_today c + 1 \<rparr>
         | Some nr \<Rightarrow>
             if nr < d0 then c\<lparr> overdue := overdue c + 1, due_today := due_today c + 1 \<rparr>
             else if nr = d0 then c\<lparr> due_today := due_today c + 1 \<rparr>
             else if nr = d1 then c\<lparr> due_tomorrow := due_tomorrow c + 1 \<rparr>
             else if d1 < nr \<and> nr \<le> d7 then c\<lparr> next_7_days := next_7_days c + 1 \<rparr>
             else if d7 < nr \<and> nr \<le> d30 then c\<lparr> next_30_days := next_30_days c + 1 \<rparr>
             else c)"

text \<open>\<^verbatim>\<open>SRS.study_plan_summary\<close>: the loop over \<^verbatim>\<open>self.db["problems"].values()\<close>.\<close>

definition study_plan_summary :: "problems \<Rightarrow> date \<Rightarrow> counts" where
  "study_plan_summary probs today =
     fold (plan_count today) (map snd probs)
       \<lparr> overdue = 0, due_today = 0, due_tomorrow = 0, next_7_days = 0, next_30_days = 0,
         total = 0 \<rparr>"

subsection \<open>Sequences of commands\<close>

text \<open>The two commands of \<^verbatim>\<open>main\<close> that change the dictionary: \<^verbatim>\<open>add pid diff notes\<close> calls
  \<^verbatim>\<open>add_solved\<close> and \<^verbatim>\<open>review pid quality\<close> calls \<^verbatim>\<open>record_review\<close>. Each command runs on
  its own day. A review that raises leaves the dictionary as it was.\<close>

datatype command = Add string int string | Review string int

fun run_command :: "problems \<Rightarrow> date \<times> command \<Rightarrow> problems" where
  "run_command probs (today, Add pid diff nts) = add_solved probs pid diff nts today"
| "run_command probs (today, Review pid q) = snd (record_review probs pid q today)"

fun run_commands :: "problems \<Rightarrow> (date \<times> command) list \<Rightarrow> problems" where
  "run_commands probs [] = probs"
| "run_commands probs (c # cs) = run_commands (run_command probs c) cs"

text \<open>The day on which the record of \<open>k\<close> was created by a sequence of commands that starts
  from the empty dictionary: the day of the first \<open>Add\<close> of \<open>k\<close>.\<close>

fun creation_date :: "(date \<times> command) list \<Rightarrow> string \<Rightarrow> date option" where
  "creation_date [] k = None"
| "creation_date ((t, Add pid diff nts) # cs) k =
     (if pid = k then Some t else creation_date cs k)"
| "creation_date ((t, Review pid q) # cs) k = creation_date cs k"

text \<open>The invariant the specification states for \<open>next_review\<close>, for an entry created on
  the day \<open>created\<close>: \<open>next_review = last_review + interval\<close> when \<open>last_review\<close> is set, and
  \<open>next_review = created + interval\<close> otherwise.\<close>

definition next_review_invariant :: "date option \<Rightarrow> entry \<Rightarrow> bool" where
  "next_review_invariant created e =
     (case last_review e of
        Some l \<Rightarrow> next_review e = Some (l + interval e)
      | None \<Rightarrow>
          (case created of
             Some c \<Rightarrow> next_review e = Some (c + interval e)
           | None \<Rightarrow> False))"

text \<open>That invariant, for every record a sequence of commands leaves in the dictionary.\<close>

definition invariant_after :: "(date \<times> command) list \<Rightarrow> bool" where
  "invariant_after cs =
     list_all (\<lambda>(k, e). next_review_invariant (creation_date cs k) e) (run_commands [] cs)"

text \<open>What a command writes to the record of \<open>k\<close>, if it writes it at all: the day, and
  whether the command created the record, reset it (an \<open>Add\<close> of a present id) or reviewed
  it (a \<open>Review\<close> that did not raise).\<close>

datatype write_kind = Created | Reset | Reviewed

fun write_of :: "problems \<Rightarrow> date \<times> command \<Rightarrow> string \<Rightarrow> (date \<times> write_kind) option" where
  "write_of probs (t, Add pid diff nts) k =
     (if pid = k then Some (t, if map_of probs pid = None then Created else Reset) else None)"
| "write_of probs (t, Review pid q) k =
     (if pid = k \<and> fst (record_review probs pid q t) = None then Some (t, Reviewed) else None)"

text \<open>The last write to the record of \<open>k\<close> in a sequence of commands run from \<open>probs\<close>.\<close>

fun last_write ::
  "problems \<Rightarrow> (date \<times> command) list \<Rightarrow> string \<Rightarrow> (date \<times> write_kind) option" where
  "last_write probs [] k = None"
| "last_write probs (c # cs) k =
     (case last_write (run_command probs c) cs k of
        Some w \<Rightarrow> Some w
      | None \<Rightarrow> write_of probs c k)"

section \<open>The scheduler as CPython computes it\<close>

subsection \<open>Floats\<close>

text \<open>A Python \<^verbatim>\<open>float\<close>: a finite double, given by its value, an infinity or a NaN. The
  two zeros are one value: nothing in the scheduler divides by a float or prints the
  sign of a zero.\<close>

datatype pyfloat = Fin rat | PInf | NInf | NaN

text \<open>The binary exponent of a rational \<open>x \<noteq> 0\<close>: the \<open>e\<close> with \<open>2\<^sup>e \<le> \<bar>x\<bar> < 2\<^sup>e\<^sup>+\<^sup>1\<close>.\<close>

definition float_exp :: "rat \<Rightarrow> int" where
  "float_exp x =
     (let (a, b) = quotient_of \<bar>x\<bar>; e0 = bitlen a - bitlen b
      in if 2 powi e0 \<le> \<bar>x\<bar> then e0 else e0 - 1)"

text \<open>Rounding a rational to the nearest double, a tie going to the even significand
  (IEEE 754 \<^emph>\<open>roundTiesToEven\<close>, binary64): 53 significant bits, no bit below \<open>2\<^sup>-\<^sup>1\<^sup>0\<^sup>7\<^sup>4\<close>, and
  an infinity when the rounded value reaches \<open>2\<^sup>1\<^sup>0\<^sup>2\<^sup>4\<close>. This is the value of a decimal
  literal and of every arithmetic operation.\<close>

definition to_float :: "rat \<Rightarrow> pyfloat" where
  "to_float x =
     (if x = 0 then Fin 0
      else let q = max (float_exp x - 52) (- 1074);
               y = of_int (py_round (x / 2 powi q)) * 2 powi q
           in if 2 powi 1024 \<le> \<bar>y\<bar> then (if 0 < x then PInf else NInf) else Fin y)"

fun fneg :: "pyfloat \<Rightarrow> pyfloat" where
  "fneg (Fin x) = Fin (- x)"
| "fneg PInf = NInf"
| "fneg NInf = PInf"
| "fneg NaN = NaN"

text \<open>\<^verbatim>\<open>a + b\<close> and \<^verbatim>\<open>a - b\<close> on floats. An overflow gives an infinity and raises nothing.\<close>

fun fadd :: "pyfloat \<Rightarrow> pyfloat \<Rightarrow> pyfloat" where
  "fadd (Fin x) (Fin y) = to_float (x + y)"
| "fadd NaN b = NaN"
| "fadd a NaN = NaN"
| "fadd PInf NInf = NaN"
| "fadd NInf PInf = NaN"
| "fadd PInf b = PInf"
| "fadd a PInf = PInf"
| "fadd NInf b = NInf"
| "fadd a NInf = NInf"

definition fsub :: "pyfloat \<Rightarrow> pyfloat \<Rightarrow> pyfloat" where
  "fsub a b = fadd a (fneg b)"

fun fsgn :: "pyfloat \<Rightarrow> int" where
  "fsgn (Fin x) = (if x < 0 then - 1 else if x = 0 then 0 else 1)"
| "fsgn PInf = 1"
| "fsgn NInf = - 1"
| "fsgn NaN = 0"

text \<open>\<^verbatim>\<open>a * b\<close> on floats; an infinity times zero is a NaN.\<close>

fun fmul :: "pyfloat \<Rightarrow> pyfloat \<Rightarrow> pyfloat" where
  "fmul (Fin x) (Fin y) = to_float (x * y)"
| "fmul NaN b = NaN"
| "fmul a NaN = NaN"
| "fmul a b =
     (if fsgn a * fsgn b = 0 then NaN else if 0 < fsgn a * fsgn b then PInf else NInf)"

text \<open>\<^verbatim>\<open>a > b\<close> on floats; every comparison with a NaN is false.\<close>

fun fgt :: "pyfloat \<Rightarrow> pyfloat \<Rightarrow> bool" where
  "fgt (Fin x) (Fin y) = (y < x)"
| "fgt NaN b = False"
| "fgt a NaN = False"
| "fgt PInf b = (b \<noteq> PInf)"
| "fgt a PInf = False"
| "fgt a NInf = (a \<noteq> NInf)"
| "fgt NInf b = False"

text \<open>\<^verbatim>\<open>max(a, b)\<close>: \<^verbatim>\<open>b\<close> when \<^verbatim>\<open>b > a\<close>, and \<^verbatim>\<open>a\<close> otherwise.\<close>

definition py_max :: "pyfloat \<Rightarrow> pyfloat \<Rightarrow> pyfloat" where
  "py_max a b = (if fgt b a then b else a)"

text \<open>The conversion of the \<^verbatim>\<open>int\<close> operand of \<^verbatim>\<open>int * float\<close>: the nearest double, and
  \<^verbatim>\<open>OverflowError\<close> when there is none.\<close>

definition int_to_float :: "int \<Rightarrow> py_error + pyfloat" where
  "int_to_float n =
     (case to_float (of_int n) of Fin y \<Rightarrow> Inr (Fin y) | _ \<Rightarrow> Inl OverflowError)"

text \<open>\<^verbatim>\<open>round(x)\<close> of a float: \<^verbatim>\<open>ValueError\<close> for a NaN and \<^verbatim>\<open>OverflowError\<close> for an
  infinity.\<close>

fun float_round :: "pyfloat \<Rightarrow> py_error + int" where
  "float_round (Fin x) = Inr (py_round x)"
| "float_round NaN = Inl ValueError"
| "float_round a = Inl OverflowError"

text \<open>\<^verbatim>\<open>round(x, n)\<close> of a float: the value is rounded to \<open>n\<close> decimals exactly, a tie
  going to the even last digit, and the decimal is read back as a double. An infinity
  and a NaN are returned as they are, and so is every float when \<open>n\<close> is above 323.\<close>

fun float_round_nd :: "pyfloat \<Rightarrow> nat \<Rightarrow> pyfloat" where
  "float_round_nd (Fin x) n =
     (if 323 < n then Fin x else to_float (of_int (py_round (x * 10 ^ n)) / 10 ^ n))"
| "float_round_nd a n = a"

subsection \<open>Dates\<close>

text \<open>\<^verbatim>\<open>d + timedelta(days=n)\<close>: \<^verbatim>\<open>timedelta\<close> raises \<^verbatim>\<open>OverflowError\<close> when \<open>\<bar>n\<bar>\<close> is above
  999999999, and the sum raises it when the day is not between \<^verbatim>\<open>date.min\<close> (day 1) and
  \<^verbatim>\<open>date.max\<close> (day 3652059, the last day of the year 9999).\<close>

definition date_add :: "date \<Rightarrow> int \<Rightarrow> py_error + date" where
  "date_add d n =
     (if 999999999 < \<bar>n\<bar> then Inl OverflowError
      else if d + n < 1 \<or> 3652059 < d + n then Inl OverflowError
      else Inr (d + n))"

subsection \<open>Adding and reviewing\<close>

text \<open>One entry of \<^verbatim>\<open>self.db["problems"]\<close> with a float as ease factor; the fields are
  those of \<open>entry\<close>.\<close>

record fp_entry =
  entry_id_fp :: string
  difficulty_fp :: int
  ef_fp :: pyfloat
  reps_fp :: int
  interval_fp :: int
  last_review_fp :: "date option"
  next_review_fp :: "date option"
  notes_fp :: string

type_synonym fp_problems = "(string \<times> fp_entry) list"

text \<open>\<^verbatim>\<open>SRS._make_entry\<close>. \<^verbatim>\<open>0.05 * (diff - 3)\<close> converts the \<^verbatim>\<open>int\<close> to a float first.\<close>

definition make_entry_fp :: "string \<Rightarrow> int \<Rightarrow> date \<Rightarrow> py_error + fp_entry" where
  "make_entry_fp pid diff today =
     (case int_to_float (diff - 3) of
        Inl err \<Rightarrow> Inl err
      | Inr d \<Rightarrow>
          let ef_new = py_max (to_float 1.3) (fsub (to_float 2.5) (fmul (to_float 0.05) d))
          in case date_add today 3 of
               Inl err \<Rightarrow> Inl err
             | Inr nr \<Rightarrow>
                 Inr \<lparr> entry_id_fp = pid, difficulty_fp = diff, ef_fp = ef_new,
                       reps_fp = 0, interval_fp = 3,
                       last_review_fp = None,
                       next_review_fp = Some nr,
                       notes_fp = [] \<rparr>)"

text \<open>\<^verbatim>\<open>SRS.add_solved\<close>. The values of the dictionary passed to \<^verbatim>\<open>e.update\<close> are computed
  before the entry is written, so an exception leaves the dictionary as it was.\<close>

definition add_solved_fp ::
  "fp_problems \<Rightarrow> string \<Rightarrow> int \<Rightarrow> string \<Rightarrow> date \<Rightarrow> py_error option \<times> fp_problems" where
  "add_solved_fp probs pid diff nts today =
     (case map_of probs pid of
        Some e \<Rightarrow>
          (case int_to_float (diff - 3) of
             Inl err \<Rightarrow> (Some err, probs)
           | Inr d \<Rightarrow>
               (case date_add today 3 of
                  Inl err \<Rightarrow> (Some err, probs)
                | Inr nr \<Rightarrow>
                    (None,
                     AList.update pid
                       (e\<lparr> difficulty_fp := diff,
                           notes_fp := (if nts \<noteq> [] then nts else notes_fp e),
                           ef_fp := float_round_nd
                             (py_max (to_float 1.3) (fsub (ef_fp e) (fmul (to_float 0.02) d))) 3,
                           reps_fp := 0,
                           interval_fp := 3,
                           next_review_fp := Some nr \<rparr>)
                       probs)))
      | None \<Rightarrow>
          (case make_entry_fp pid diff today of
             Inl err \<Rightarrow> (Some err, probs)
           | Inr e \<Rightarrow> (None, AList.update pid (e\<lparr> notes_fp := nts \<rparr>) probs)))"

text \<open>\<^verbatim>\<open>SRS.record_review\<close>. \<^verbatim>\<open>prev_i * ef\<close> converts \<^verbatim>\<open>prev_i\<close> to a float, multiplies and
  is then rounded to an \<^verbatim>\<open>int\<close>; \<open>5 - q\<close> is between 0 and 5 and converts exactly.\<close>

definition record_review_fp ::
  "fp_problems \<Rightarrow> string \<Rightarrow> int \<Rightarrow> date \<Rightarrow> py_error option \<times> fp_problems" where
  "record_review_fp probs pid q today =
     (case map_of probs pid of
        None \<Rightarrow> (Some KeyError, probs)
      | Some e \<Rightarrow>
          if \<not> (0 \<le> q \<and> q \<le> 5) then (Some ValueError, probs)
          else
            let prev_i = interval_fp e
            in case (if q < 3 then Inr (0, 3)
                     else let r = reps_fp e + 1
                          in if r = 1 then Inr (r, 10)
                             else case int_to_float prev_i of
                                    Inl err \<Rightarrow> Inl err
                                  | Inr p \<Rightarrow>
                                      (case float_round (fmul p (ef_fp e)) of
                                         Inl err \<Rightarrow> Inl err
                                       | Inr k \<Rightarrow> Inr (r, max 1 k))) of
                 Inl err \<Rightarrow> (Some err, probs)
               | Inr (reps', interval') \<Rightarrow>
                   let n = to_float (of_int (5 - q));
                       ef_new = py_max (to_float 1.3)
                         (fadd (ef_fp e)
                            (fsub (to_float 0.1)
                               (fmul n (fadd (to_float 0.08) (fmul n (to_float 0.02))))))
                   in case date_add today interval' of
                        Inl err \<Rightarrow> (Some err, probs)
                      | Inr nr \<Rightarrow>
                          (None,
                           AList.update pid
                             (e\<lparr> ef_fp := float_round_nd ef_new 3,
                                 reps_fp := reps',
                                 interval_fp := interval',
                                 last_review_fp := Some today,
                                 next_review_fp := Some nr \<rparr>)
                             probs))"

text \<open>A sequence of commands, as \<open>run_commands\<close>; a command that raises leaves the
  dictionary as it was.\<close>

fun run_command_fp :: "fp_problems \<Rightarrow> date \<times> command \<Rightarrow> fp_problems" where
  "run_command_fp probs (today, Add pid diff nts) = snd (add_solved_fp probs pid diff nts today)"
| "run_command_fp probs (today, Review pid q) = snd (record_review_fp probs pid q today)"

fun run_commands_fp :: "fp_problems \<Rightarrow> (date \<times> command) list \<Rightarrow> fp_problems" where
  "run_commands_fp probs [] = probs"
| "run_commands_fp probs (c # cs) = run_commands_fp (run_command_fp probs c) cs"

section \<open>Properties\<close>

subsection \<open>Rounding\<close>










subsection \<open>The dictionary\<close>


lemma map_of_update_same: "map_of (AList.update k v ps) k = Some v"
  by (simp add: update_Some_unfold)

lemma map_of_update_other: "k \<noteq> pid \<Longrightarrow> map_of (AList.update pid v ps) k = map_of ps k"
  by (simp add: update_conv')

subsection \<open>A successful review\<close>



subsection \<open>A lapse\<close>

text \<open>
  C2. For a record that is in the collection and a quality \<open>q\<close> with \<open>0 \<le> q < 3\<close>,
  \<^verbatim>\<open>record_review\<close> raises nothing and leaves the record with \<open>reps = 0\<close>,
  \<open>interval = 3\<close> and \<open>next_review = today + 3\<close>, whatever its repetitions, interval and
  ease factor were before.
\<close>

theorem record_review_lapse:
  assumes "map_of probs pid = Some e" and "0 \<le> q" and "q < 3"
  shows "\<exists>e'. record_review probs pid q today = (None, AList.update pid e' probs)
            \<and> map_of (snd (record_review probs pid q today)) pid = Some e'
            \<and> reps e' = 0 \<and> interval e' = 3 \<and> next_review e' = Some (today + 3)"
  using assms by (simp add: record_review_def map_of_update_same)

theorem record_review_lapse_witness:
  "(map_of [(''P1'', \<lparr> entry_id = ''P1'', difficulty = 3, ef = 2.7, reps = 2, interval = 26,
        last_review = Some 10, next_review = Some 36, notes = [] \<rparr>)] ''P1''
      = Some \<lparr> entry_id = ''P1'', difficulty = 3, ef = 2.7, reps = 2, interval = 26,
          last_review = Some 10, next_review = Some 36, notes = [] \<rparr>
    \<and> (0::int) \<le> 1 \<and> (1::int) < 3)
   \<and> (\<exists>e'. map_of (snd (record_review [(''P1'', \<lparr> entry_id = ''P1'', difficulty = 3,
                ef = 2.7, reps = 2, interval = 26, last_review = Some 10,
                next_review = Some 36, notes = [] \<rparr>)] ''P1'' 1 36)) ''P1'' = Some e'
          \<and> reps e' = 0 \<and> interval e' = 3 \<and> next_review e' = Some (36 + 3))"
proof -
  let ?e = "\<lparr> entry_id = ''P1'', difficulty = 3, ef = 2.7, reps = 2, interval = 26,
        last_review = Some 10, next_review = Some 36, notes = [] \<rparr>"
  have present: "map_of [(''P1'', ?e)] ''P1'' = Some ?e" by simp
  have q: "(0::int) \<le> 1" "(1::int) < 3" by simp_all
  from record_review_lapse [OF present q, of 36] present q show ?thesis by blast
qed

subsection \<open>The ease factor\<close>



subsection \<open>The errors of a review\<close>

text \<open>
  C4. \<^verbatim>\<open>record_review\<close> raises \<^verbatim>\<open>KeyError\<close> exactly when the id is not in the collection,
  and \<^verbatim>\<open>ValueError\<close> exactly when the id is in the collection and the quality is outside
  \<open>[0, 5]\<close>; whenever it raises, the collection (and so every record in it) is what it
  was before the call.
\<close>

theorem record_review_errors:
  "(fst (record_review probs pid q today) = Some KeyError \<longleftrightarrow> map_of probs pid = None)
   \<and> (fst (record_review probs pid q today) = Some ValueError
        \<longleftrightarrow> map_of probs pid \<noteq> None \<and> \<not> (0 \<le> q \<and> q \<le> 5))
   \<and> (fst (record_review probs pid q today) \<noteq> None
        \<longrightarrow> snd (record_review probs pid q today) = probs)"
  by (auto simp: record_review_def Let_def split: option.splits prod.splits)

theorem record_review_errors_witness:
  "fst (record_review [(''P1'', make_entry ''P1'' 3 0)] ''P2'' 4 7) = Some KeyError
   \<and> snd (record_review [(''P1'', make_entry ''P1'' 3 0)] ''P2'' 4 7)
       = [(''P1'', make_entry ''P1'' 3 0)]
   \<and> fst (record_review [(''P1'', make_entry ''P1'' 3 0)] ''P1'' 6 7) = Some ValueError
   \<and> snd (record_review [(''P1'', make_entry ''P1'' 3 0)] ''P1'' 6 7)
       = [(''P1'', make_entry ''P1'' 3 0)]
   \<and> fst (record_review [(''P1'', make_entry ''P1'' 3 0)] ''P1'' (- 1) 7) = Some ValueError
   \<and> snd (record_review [(''P1'', make_entry ''P1'' 3 0)] ''P1'' (- 1) 7)
       = [(''P1'', make_entry ''P1'' 3 0)]"
  using record_review_errors [of "[(''P1'', make_entry ''P1'' 3 0)]" "''P2''" 4 7]
    record_review_errors [of "[(''P1'', make_entry ''P1'' 3 0)]" "''P1''" 6 7]
    record_review_errors [of "[(''P1'', make_entry ''P1'' 3 0)]" "''P1''" "- 1" 7]
  by simp

text \<open>
  C10. \<^verbatim>\<open>record_review\<close> checks the id before the quality: for an id that is not in the
  collection it raises \<^verbatim>\<open>KeyError\<close> for every quality, also one outside \<open>[0, 5]\<close>, and
  leaves the collection as it was.
\<close>

theorem record_review_checks_id_first:
  "map_of probs pid = None \<Longrightarrow> record_review probs pid q today = (Some KeyError, probs)"
  by (simp add: record_review_def)

theorem record_review_checks_id_first_witness:
  "map_of [(''P1'', make_entry ''P1'' 3 0)] ''P2'' = None
   \<and> record_review [(''P1'', make_entry ''P1'' 3 0)] ''P2'' 6 7
       = (Some KeyError, [(''P1'', make_entry ''P1'' 3 0)])"
proof -
  have absent: "map_of [(''P1'', make_entry ''P1'' 3 0)] ''P2'' = None" by simp
  from absent record_review_checks_id_first [OF absent] show ?thesis by (rule conjI)
qed

subsection \<open>Adding a problem\<close>





subsection \<open>The due list\<close>

text \<open>
  C7. \<^verbatim>\<open>get_due\<close> returns exactly the records whose \<open>next_review\<close> is absent or at most
  today, each as often as it occurs in the collection, in ascending order of
  \<open>next_review\<close> with an absent \<open>next_review\<close> counted as today; of two records with the
  same date the one with the greater difficulty comes first.
\<close>

theorem get_due_sorted:
  "mset (get_due probs today)
     = filter_mset (\<lambda>p. next_review p = None \<or> (\<exists>n. next_review p = Some n \<and> n \<le> today))
         (mset (map snd probs))
   \<and> sorted_wrt
        (\<lambda>a b. (case next_review a of None \<Rightarrow> today | Some n \<Rightarrow> n)
                  < (case next_review b of None \<Rightarrow> today | Some n \<Rightarrow> n)
              \<or> (case next_review a of None \<Rightarrow> today | Some n \<Rightarrow> n)
                  = (case next_review b of None \<Rightarrow> today | Some n \<Rightarrow> n)
                \<and> difficulty b \<le> difficulty a)
        (get_due probs today)"
proof
  have "mset (get_due probs today)
     = filter_mset (\<lambda>p. case next_review p of None \<Rightarrow> True | Some n \<Rightarrow> n \<le> today)
         (mset (map snd probs))"
    by (simp add: get_due_def Let_def)
  also have "\<dots>
     = filter_mset (\<lambda>p. next_review p = None \<or> (\<exists>n. next_review p = Some n \<and> n \<le> today))
         (mset (map snd probs))"
    by (rule filter_mset_cong) (auto split: option.splits)
  finally show "mset (get_due probs today)
     = filter_mset (\<lambda>p. next_review p = None \<or> (\<exists>n. next_review p = Some n \<and> n \<le> today))
         (mset (map snd probs))" .
next
  let ?key = "\<lambda>x. (case next_review x of None \<Rightarrow> today | Some n \<Rightarrow> n, - difficulty x)"
  have "sorted (map ?key (get_due probs today))"
    unfolding get_due_def Let_def by (rule sorted_sort_key)
  then have "sorted_wrt (\<lambda>a b. ?key a \<le> ?key b) (get_due probs today)"
    by (simp add: sorted_map)
  then show "sorted_wrt
        (\<lambda>a b. (case next_review a of None \<Rightarrow> today | Some n \<Rightarrow> n)
                  < (case next_review b of None \<Rightarrow> today | Some n \<Rightarrow> n)
              \<or> (case next_review a of None \<Rightarrow> today | Some n \<Rightarrow> n)
                  = (case next_review b of None \<Rightarrow> today | Some n \<Rightarrow> n)
                \<and> difficulty b \<le> difficulty a)
        (get_due probs today)"
    by (rule sorted_wrt_mono_rel [rotated]) (auto simp: less_eq_prod_def)
qed

theorem get_due_sorted_witness:
  "get_due [(''A'', make_entry ''A'' 2 2), (''B'', (make_entry ''B'' 1 0)\<lparr> next_review := None \<rparr>),
            (''C'', make_entry ''C'' 4 2), (''D'', make_entry ''D'' 3 17)] 10
     = [make_entry ''C'' 4 2, make_entry ''A'' 2 2,
        (make_entry ''B'' 1 0)\<lparr> next_review := None \<rparr>]
   \<and> sorted_wrt
        (\<lambda>a b. (case next_review a of None \<Rightarrow> 10 | Some n \<Rightarrow> n)
                  < (case next_review b of None \<Rightarrow> 10 | Some n \<Rightarrow> n)
              \<or> (case next_review a of None \<Rightarrow> 10 | Some n \<Rightarrow> n)
                  = (case next_review b of None \<Rightarrow> 10 | Some n \<Rightarrow> n)
                \<and> difficulty b \<le> difficulty a)
        [make_entry ''C'' 4 2, make_entry ''A'' 2 2,
         (make_entry ''B'' 1 0)\<lparr> next_review := None \<rparr>]"
proof -
  let ?db = "[(''A'', make_entry ''A'' 2 2), (''B'', (make_entry ''B'' 1 0)\<lparr> next_review := None \<rparr>),
            (''C'', make_entry ''C'' 4 2), (''D'', make_entry ''D'' 3 17)]"
  have due: "get_due ?db 10
     = [make_entry ''C'' 4 2, make_entry ''A'' 2 2,
        (make_entry ''B'' 1 0)\<lparr> next_review := None \<rparr>]"
    by code_simp
  from get_due_sorted [of ?db 10] have "sorted_wrt
        (\<lambda>a b. (case next_review a of None \<Rightarrow> 10 | Some n \<Rightarrow> n)
                  < (case next_review b of None \<Rightarrow> 10 | Some n \<Rightarrow> n)
              \<or> (case next_review a of None \<Rightarrow> 10 | Some n \<Rightarrow> n)
                  = (case next_review b of None \<Rightarrow> 10 | Some n \<Rightarrow> n)
                \<and> difficulty b \<le> difficulty a)
        (get_due ?db 10)"
    by (rule conjunct2)
  then have "sorted_wrt
        (\<lambda>a b. (case next_review a of None \<Rightarrow> 10 | Some n \<Rightarrow> n)
                  < (case next_review b of None \<Rightarrow> 10 | Some n \<Rightarrow> n)
              \<or> (case next_review a of None \<Rightarrow> 10 | Some n \<Rightarrow> n)
                  = (case next_review b of None \<Rightarrow> 10 | Some n \<Rightarrow> n)
                \<and> difficulty b \<le> difficulty a)
        [make_entry ''C'' 4 2, make_entry ''A'' 2 2,
         (make_entry ''B'' 1 0)\<lparr> next_review := None \<rparr>]"
    by (simp only: due)
  with due show ?thesis by (rule conjI)
qed

subsection \<open>The study plan\<close>

lemma fold_plan_total: "total (fold (plan_count d) xs c) = total c + length xs"
  by (induction xs arbitrary: c) (auto simp: plan_count_def Let_def split: option.splits)

lemma fold_plan_overdue:
  "overdue (fold (plan_count d) xs c)
     = overdue c + length (filter (\<lambda>p. \<exists>n. next_review p = Some n \<and> n < d) xs)"
  by (induction xs arbitrary: c) (auto simp: plan_count_def Let_def split: option.splits)

lemma fold_plan_due_today:
  "due_today (fold (plan_count d) xs c)
     = due_today c
       + length (filter (\<lambda>p. next_review p = None \<or> (\<exists>n. next_review p = Some n \<and> n \<le> d)) xs)"
  by (induction xs arbitrary: c) (auto simp: plan_count_def Let_def split: option.splits)

lemma fold_plan_due_tomorrow:
  "due_tomorrow (fold (plan_count d) xs c)
     = due_tomorrow c + length (filter (\<lambda>p. next_review p = Some (d + 1)) xs)"
  by (induction xs arbitrary: c) (auto simp: plan_count_def Let_def split: option.splits)

lemma fold_plan_next_7:
  "next_7_days (fold (plan_count d) xs c)
     = next_7_days c
       + length (filter (\<lambda>p. \<exists>n. next_review p = Some n \<and> d + 1 < n \<and> n \<le> d + 7) xs)"
  by (induction xs arbitrary: c) (auto simp: plan_count_def Let_def split: option.splits)

lemma fold_plan_next_30:
  "next_30_days (fold (plan_count d) xs c)
     = next_30_days c
       + length (filter (\<lambda>p. \<exists>n. next_review p = Some n \<and> d + 7 < n \<and> n \<le> d + 30) xs)"
  by (induction xs arbitrary: c) (auto simp: plan_count_def Let_def split: option.splits)

text \<open>
  C8. \<^verbatim>\<open>study_plan_summary\<close> counts every record in \<open>total\<close>; a record with
  \<open>next_review < today\<close> in \<open>overdue\<close> and in \<open>due_today\<close>; one with \<open>next_review = today\<close>
  or with no \<open>next_review\<close> in \<open>due_today\<close>; one with \<open>next_review = today + 1\<close> in
  \<open>due_tomorrow\<close>; one with \<open>today + 1 < next_review \<le> today + 7\<close> in \<open>next_7_days\<close>; one
  with \<open>today + 7 < next_review \<le> today + 30\<close> in \<open>next_30_days\<close>. A single record whose
  \<open>next_review\<close> is yesterday gives \<open>overdue = 1\<close>, \<open>due_today = 1\<close>, \<open>total = 1\<close> and 0
  elsewhere.
\<close>

theorem study_plan_summary_buckets:
  "total (study_plan_summary probs d) = length probs
   \<and> overdue (study_plan_summary probs d)
       = length (filter (\<lambda>p. \<exists>n. next_review p = Some n \<and> n < d) (map snd probs))
   \<and> due_today (study_plan_summary probs d)
       = length (filter (\<lambda>p. next_review p = None \<or> (\<exists>n. next_review p = Some n \<and> n \<le> d))
           (map snd probs))
   \<and> due_tomorrow (study_plan_summary probs d)
       = length (filter (\<lambda>p. next_review p = Some (d + 1)) (map snd probs))
   \<and> next_7_days (study_plan_summary probs d)
       = length (filter (\<lambda>p. \<exists>n. next_review p = Some n \<and> d + 1 < n \<and> n \<le> d + 7)
           (map snd probs))
   \<and> next_30_days (study_plan_summary probs d)
       = length (filter (\<lambda>p. \<exists>n. next_review p = Some n \<and> d + 7 < n \<and> n \<le> d + 30)
           (map snd probs))
   \<and> (\<forall>k e. next_review e = Some (d - 1) \<longrightarrow>
         study_plan_summary [(k, e)] d
           = \<lparr> overdue = 1, due_today = 1, due_tomorrow = 0, next_7_days = 0,
               next_30_days = 0, total = 1 \<rparr>)"
  unfolding study_plan_summary_def
  by (simp add: fold_plan_total fold_plan_overdue fold_plan_due_today fold_plan_due_tomorrow
      fold_plan_next_7 fold_plan_next_30 plan_count_def Let_def)

theorem study_plan_summary_buckets_witness:
  "next_review (make_entry ''P1'' 3 6) = Some (10 - 1)
   \<and> study_plan_summary [(''P1'', make_entry ''P1'' 3 6)] 10
       = \<lparr> overdue = 1, due_today = 1, due_tomorrow = 0, next_7_days = 0,
           next_30_days = 0, total = 1 \<rparr>
   \<and> study_plan_summary
        [(''A'', make_entry ''A'' 2 2), (''B'', (make_entry ''B'' 1 0)\<lparr> next_review := None \<rparr>),
         (''C'', make_entry ''C'' 4 7), (''D'', make_entry ''D'' 3 8),
         (''E'', make_entry ''E'' 3 12), (''F'', make_entry ''F'' 3 30),
         (''G'', make_entry ''G'' 3 60)] 10
       = \<lparr> overdue = 1, due_today = 3, due_tomorrow = 1, next_7_days = 1,
           next_30_days = 1, total = 7 \<rparr>"
proof -
  have yesterday: "next_review (make_entry ''P1'' 3 6) = Some (10 - 1)"
    by (simp add: make_entry_def)
  from study_plan_summary_buckets [of "[]" 10]
  have "\<forall>k e. next_review e = Some (10 - 1) \<longrightarrow>
         study_plan_summary [(k, e)] 10
           = \<lparr> overdue = 1, due_today = 1, due_tomorrow = 0, next_7_days = 0,
               next_30_days = 0, total = 1 \<rparr>"
    by blast
  with yesterday have one: "study_plan_summary [(''P1'', make_entry ''P1'' 3 6)] 10
       = \<lparr> overdue = 1, due_today = 1, due_tomorrow = 0, next_7_days = 0,
           next_30_days = 0, total = 1 \<rparr>"
    by blast
  have "study_plan_summary
        [(''A'', make_entry ''A'' 2 2), (''B'', (make_entry ''B'' 1 0)\<lparr> next_review := None \<rparr>),
         (''C'', make_entry ''C'' 4 7), (''D'', make_entry ''D'' 3 8),
         (''E'', make_entry ''E'' 3 12), (''F'', make_entry ''F'' 3 30),
         (''G'', make_entry ''G'' 3 60)] 10
       = \<lparr> overdue = 1, due_today = 3, due_tomorrow = 1, next_7_days = 1,
           next_30_days = 1, total = 7 \<rparr>"
    by code_simp
  with yesterday one show ?thesis by blast
qed

subsection \<open>The invariant of \<open>next_review\<close>\<close>

text \<open>
  The specification's invariant does not survive a reset. Add a problem on day 0, review
  it with quality 5 on day 10 and add it again on day 15: the reset leaves
  \<open>last_review = 10\<close> and sets \<open>interval = 3\<close> and \<open>next_review = 18\<close>, which is not
  \<open>last_review + interval = 13\<close>.
\<close>

theorem invariant_after_counterexample:
  "run_commands [] [(0, Add ''P1'' 3 []), (10, Review ''P1'' 5), (15, Add ''P1'' 3 [])]
     = [(''P1'', \<lparr> entry_id = ''P1'', difficulty = 3, ef = 2.6, reps = 0, interval = 3,
          last_review = Some 10, next_review = Some 18, notes = [] \<rparr>)]
   \<and> \<not> invariant_after [(0, Add ''P1'' 3 []), (10, Review ''P1'' 5), (15, Add ''P1'' 3 [])]"
  by code_simp

lemma run_command_unwritten:
  "write_of probs c k = None \<Longrightarrow> map_of (run_command probs c) k = map_of probs k"
proof (cases c)
  case (Pair t cmd)
  assume w: "write_of probs c k = None"
  show ?thesis
  proof (cases cmd)
    case (Add pid diff nts)
    with Pair w have "k \<noteq> pid" by (auto split: if_splits)
    with Pair Add show ?thesis
      by (simp add: add_solved_def map_of_update_other split: option.splits)
  next
    case (Review pid q)
    show ?thesis
    proof (cases "fst (record_review probs pid q t) = None")
      case True
      with Pair Review w have "k \<noteq> pid" by (auto split: if_splits)
      with Pair Review show ?thesis
        by (simp add: record_review_def Let_def map_of_update_other
            split: option.splits prod.splits)
    next
      case False
      with Pair Review show ?thesis
        by (auto simp: record_review_def Let_def split: option.splits prod.splits if_splits)
    qed
  qed
qed

lemma run_command_written:
  assumes "write_of probs c k = Some (d, w)"
  shows "\<exists>e. map_of (run_command probs c) k = Some e
            \<and> next_review e = Some (d + interval e)
            \<and> (w = Reviewed \<longrightarrow> last_review e = Some d)
            \<and> (w = Created \<longrightarrow> last_review e = None)"
proof (cases c)
  case (Pair t cmd)
  show ?thesis
  proof (cases cmd)
    case (Add pid diff nts)
    with Pair assms show ?thesis
      by (auto simp: add_solved_def make_entry_def map_of_update_same
          split: if_splits option.splits)
  next
    case (Review pid q)
    with Pair assms show ?thesis
      by (auto simp: record_review_def Let_def map_of_update_same
          split: if_splits option.splits prod.splits)
  qed
qed

lemma run_command_keeps_key:
  "map_of probs k \<noteq> None \<Longrightarrow> map_of (run_command probs c) k \<noteq> None"
proof -
  assume present: "map_of probs k \<noteq> None"
  show ?thesis
  proof (cases "write_of probs c k")
    case None
    then show ?thesis using present by (simp add: run_command_unwritten)
  next
    case (Some dw)
    then show ?thesis using run_command_written [of probs c k "fst dw" "snd dw"] by auto
  qed
qed

lemma last_write_None:
  "last_write probs cs k = None \<Longrightarrow> map_of (run_commands probs cs) k = map_of probs k"
proof (induction cs arbitrary: probs)
  case Nil
  then show ?case by simp
next
  case (Cons c cs)
  from Cons.prems have later: "last_write (run_command probs c) cs k = None"
    and here: "write_of probs c k = None"
    by (auto split: option.splits)
  from Cons.IH [OF later] here show ?case
    by (simp add: run_command_unwritten)
qed

lemma last_write_Some:
  "last_write probs cs k = Some (d, w) \<Longrightarrow>
     \<exists>e. map_of (run_commands probs cs) k = Some e
        \<and> next_review e = Some (d + interval e)
        \<and> (w = Reviewed \<longrightarrow> last_review e = Some d)
        \<and> (w = Created \<longrightarrow> last_review e = None)"
proof (induction cs arbitrary: probs)
  case Nil
  then show ?case by simp
next
  case (Cons c cs)
  show ?case
  proof (cases "last_write (run_command probs c) cs k")
    case None
    with Cons.prems have "write_of probs c k = Some (d, w)" by simp
    then have "\<exists>e. map_of (run_command probs c) k = Some e
        \<and> next_review e = Some (d + interval e)
        \<and> (w = Reviewed \<longrightarrow> last_review e = Some d)
        \<and> (w = Created \<longrightarrow> last_review e = None)"
      by (rule run_command_written)
    moreover from None have "map_of (run_commands (run_command probs c) cs) k
        = map_of (run_command probs c) k"
      by (rule last_write_None)
    ultimately show ?thesis by simp
  next
    case (Some dw)
    with Cons.prems have "last_write (run_command probs c) cs k = Some (d, w)" by simp
    from Cons.IH [OF this] show ?thesis by simp
  qed
qed

lemma write_of_present_not_Created:
  "map_of probs k \<noteq> None \<Longrightarrow> write_of probs c k \<noteq> Some (d, Created)"
  by (cases c, case_tac b) (auto split: if_splits)

lemma last_write_present_not_Created:
  "map_of probs k \<noteq> None \<Longrightarrow> last_write probs cs k \<noteq> Some (d, Created)"
proof (induction cs arbitrary: probs)
  case Nil
  then show ?case by simp
next
  case (Cons c cs)
  from Cons.prems have "map_of (run_command probs c) k \<noteq> None"
    by (rule run_command_keeps_key)
  then have "last_write (run_command probs c) cs k \<noteq> Some (d, Created)"
    by (rule Cons.IH)
  moreover from Cons.prems have "write_of probs c k \<noteq> Some (d, Created)"
    by (rule write_of_present_not_Created)
  ultimately show ?case by (auto split: option.splits)
qed

lemma last_write_Created:
  "map_of probs k = None \<Longrightarrow> last_write probs cs k = Some (d, Created) \<Longrightarrow>
     creation_date cs k = Some d"
proof (induction cs arbitrary: probs)
  case Nil
  then show ?case by simp
next
  case (Cons c cs)
  obtain t cmd where c: "c = (t, cmd)" by (cases c)
  show ?case
  proof (cases cmd)
    case (Add pid diff nts)
    show ?thesis
    proof (cases "pid = k")
      case True
      then have "map_of (run_command probs c) k \<noteq> None"
        using c Add by (simp add: add_solved_def map_of_update_same split: option.splits)
      then have "last_write (run_command probs c) cs k \<noteq> Some (d, Created)"
        by (rule last_write_present_not_Created)
      with Cons.prems have "write_of probs c k = Some (d, Created)"
        by (auto split: option.splits)
      with c Add True show ?thesis by (auto split: if_splits)
    next
      case False
      with c Add have w: "write_of probs c k = None" by simp
      then have "map_of (run_command probs c) k = None"
        using Cons.prems(1) by (simp add: run_command_unwritten)
      moreover from Cons.prems(2) w have "last_write (run_command probs c) cs k = Some (d, Created)"
        by (auto split: option.splits)
      ultimately have "creation_date cs k = Some d" by (rule Cons.IH)
      with c Add False show ?thesis by simp
    qed
  next
    case (Review pid q)
    have w: "write_of probs c k = None"
      using c Review Cons.prems(1) by (auto simp: record_review_def)
    then have "map_of (run_command probs c) k = None"
      using Cons.prems(1) by (simp add: run_command_unwritten)
    moreover from Cons.prems(2) w have "last_write (run_command probs c) cs k = Some (d, Created)"
      by (auto split: option.splits)
    ultimately have "creation_date cs k = Some d" by (rule Cons.IH)
    with c Review show ?thesis by simp
  qed
qed

text \<open>
  C9, amended. After any sequence of \<open>Add\<close> and \<open>Review\<close> commands run from the empty
  collection, every record in the collection has \<open>next_review = d + interval\<close>, where \<open>d\<close>
  is the day of the last command that wrote the record. When that command was a review,
  \<open>d\<close> is the record's \<open>last_review\<close>; when it was the \<open>Add\<close> that created the record, the
  record has no \<open>last_review\<close> and \<open>d\<close> is its creation date. When it was a reset, \<open>d\<close> is the
  day of the reset.
\<close>

theorem next_review_after_last_write:
  assumes "map_of (run_commands [] cs) k = Some e"
  shows "\<exists>d w. last_write [] cs k = Some (d, w)
            \<and> next_review e = Some (d + interval e)
            \<and> (w = Reviewed \<longrightarrow> last_review e = Some d)
            \<and> (w = Created \<longrightarrow> last_review e = None \<and> creation_date cs k = Some d)"
proof (cases "last_write [] cs k")
  case None
  then have "map_of (run_commands [] cs) k = map_of [] k" by (rule last_write_None)
  with assms show ?thesis by simp
next
  case (Some dw)
  obtain d w where dw: "dw = (d, w)" by (cases dw)
  with Some have lw: "last_write [] cs k = Some (d, w)" by simp
  from last_write_Some [OF lw] assms
  have "next_review e = Some (d + interval e)"
    and "w = Reviewed \<longrightarrow> last_review e = Some d"
    and "w = Created \<longrightarrow> last_review e = None"
    by auto
  moreover have "w = Created \<longrightarrow> creation_date cs k = Some d"
    using lw last_write_Created [of "[]" k cs d] by auto
  ultimately show ?thesis using lw by blast
qed

theorem next_review_after_last_write_witness:
  "map_of (run_commands [] [(0, Add ''P1'' 3 []), (10, Review ''P1'' 5), (15, Add ''P1'' 3 [])])
      ''P1''
     = Some \<lparr> entry_id = ''P1'', difficulty = 3, ef = 2.6, reps = 0, interval = 3,
          last_review = Some 10, next_review = Some 18, notes = [] \<rparr>
   \<and> last_write [] [(0, Add ''P1'' 3 []), (10, Review ''P1'' 5), (15, Add ''P1'' 3 [])] ''P1''
       = Some (15, Reset)
   \<and> (\<exists>d w. last_write [] [(0, Add ''P1'' 3 []), (10, Review ''P1'' 5), (15, Add ''P1'' 3 [])]
              ''P1'' = Some (d, w)
          \<and> next_review \<lparr> entry_id = ''P1'', difficulty = 3, ef = 2.6, reps = 0, interval = 3,
                last_review = Some 10, next_review = Some 18, notes = [] \<rparr>
              = Some (d + interval \<lparr> entry_id = ''P1'', difficulty = 3, ef = 2.6, reps = 0,
                  interval = 3, last_review = Some 10, next_review = Some 18, notes = [] \<rparr>))"
proof -
  let ?cs = "[(0, Add ''P1'' 3 []), (10, Review ''P1'' 5), (15, Add ''P1'' 3 [])]"
  let ?e = "\<lparr> entry_id = ''P1'', difficulty = 3, ef = 2.6, reps = 0, interval = 3,
          last_review = Some 10, next_review = Some 18, notes = [] \<rparr>"
  have stored: "map_of (run_commands [] ?cs) ''P1'' = Some ?e" by code_simp
  have lw: "last_write [] ?cs ''P1'' = Some (15, Reset)" by code_simp
  from next_review_after_last_write [OF stored]
  have "\<exists>d w. last_write [] ?cs ''P1'' = Some (d, w)
          \<and> next_review ?e = Some (d + interval ?e)"
    by blast
  with stored lw show ?thesis by blast
qed

end
